theory Spec2Isabelle
  imports Complex_Main "HOL-Library.AList"
begin

chapter \<open>The CSV parser of \<^verbatim>\<open>src/utils/csvParser.js\<close>\<close>

text \<open>
  The development embeds the class \<^verbatim>\<open>CSVParser\<close>: the line splitter \<^verbatim>\<open>parseLine\<close>, the
  path-to-object builder \<^verbatim>\<open>createNestedObject\<close>, the deep merger \<^verbatim>\<open>mergeDeep\<close>, the row
  loop shared by the two entry points, the whole-file loader \<^verbatim>\<open>parse\<close> and the event
  handlers of the streaming pipeline \<^verbatim>\<open>parseStream\<close>.

  Conventions of the embedding.
  \<^item> A JavaScript string is a \<^typ>\<open>string\<close>; a \<^typ>\<open>char\<close> stands for a code unit below 256.
    Code units above 255 are outside the embedding.
  \<^item> An object is the list of its own enumerable properties in insertion order; the
    engine's reordering of integer-like keys is outside the embedding.
  \<^item> The embedding follows the program on own properties. Where the program reads a
    property that the runtime provides (through the prototype chain, or as the index and
    \<^verbatim>\<open>length\<close> properties of strings and arrays) or replaces the prototype of an object,
    it goes on with objects that the whole process shares; the embedding stops there with
    the result \<open>PrototypeChain\<close>. The runtime is taken as it starts: no enumerable
    property has been added to a built-in prototype.
  \<^item> A class body is strict mode code, so writing a property on a primitive value throws
    a \<^verbatim>\<open>TypeError\<close> (but for \<^verbatim>\<open>__proto__\<close>, whose inherited setter returns without effect).
  \<^item> A number is carried as the exact value of the literal it was read from. The
    rounding to binary64 is applied where the program observes it, in the truthiness test.
\<close>

section \<open>Strings\<close>

definition dquote :: char where
  "dquote = CHR 0x22"

definition comma :: char where
  "comma = CHR '',''"

definition dot :: char where
  "dot = CHR ''.''"

definition newline :: char where
  "newline = CHR 0x0A"

text \<open>The white space and line terminator code units below 256, as \<^verbatim>\<open>String.prototype.trim\<close>
  and the numeric string grammar read them.\<close>

definition isWhiteSpace :: "char \<Rightarrow> bool" where
  "isWhiteSpace c \<longleftrightarrow>
     c = CHR 0x09 \<or> c = CHR 0x0A \<or> c = CHR 0x0B \<or> c = CHR 0x0C \<or> c = CHR 0x0D \<or>
     c = CHR 0x20 \<or> c = CHR 0xA0"

definition trim :: "string \<Rightarrow> string" where
  "trim s = rev (dropWhile isWhiteSpace (rev (dropWhile isWhiteSpace s)))"

text \<open>\<^verbatim>\<open>s.split(sep)\<close> for a one-character separator: never the empty list.\<close>

fun split_loop :: "char \<Rightarrow> string \<Rightarrow> string \<Rightarrow> string list" where
  "split_loop sep current [] = [current]"
| "split_loop sep current (c # cs) =
     (if c = sep then current # split_loop sep [] cs
      else split_loop sep (current @ [c]) cs)"

definition split :: "char \<Rightarrow> string \<Rightarrow> string list" where
  "split sep s = split_loop sep [] s"

definition isDigit :: "char \<Rightarrow> bool" where
  "isDigit c \<longleftrightarrow> c \<in> set ''0123456789''"

section \<open>The line splitter\<close>

text \<open>
  \<^verbatim>\<open>parseLine(line)\<close>: the loop over the characters of the line, with the variables
  \<^verbatim>\<open>values\<close>, \<^verbatim>\<open>current\<close> and \<^verbatim>\<open>insideQuotes\<close> as arguments; the push after the loop
  is the base case.
\<close>

fun parseLine_loop :: "string list \<Rightarrow> string \<Rightarrow> bool \<Rightarrow> string \<Rightarrow> string list" where
  "parseLine_loop values current insideQuotes [] = values @ [trim current]"
| "parseLine_loop values current insideQuotes (c # cs) =
     (if c = dquote then parseLine_loop values current (\<not> insideQuotes) cs
      else if c = comma \<and> \<not> insideQuotes
        then parseLine_loop (values @ [trim current]) [] insideQuotes cs
      else parseLine_loop values (current @ [c]) insideQuotes cs)"

definition parseLine :: "string \<Rightarrow> string list" where
  "parseLine line = parseLine_loop [] [] False line"

section \<open>JavaScript values\<close>

text \<open>
  A number: \<open>Finite q\<close> is the number read from a literal of exact value \<open>q\<close>, that is the
  binary64 rounding of \<open>q\<close> (an infinity when \<open>q\<close> is beyond the binary64 range); the two
  infinities are those written \<^verbatim>\<open>Infinity\<close>; the last is \<^verbatim>\<open>NaN\<close>. The sign of zero is not
  kept. Two literals that round to the same binary64 number are kept apart.
\<close>

datatype jsnum = Finite rat | PosInfinity | NegInfinity | NaN

text \<open>
  A value: a primitive, an array (its elements and its other own properties) or a plain
  object (its own properties in insertion order).
\<close>

datatype jsval =
    JUndefined
  | JNull
  | JBool bool
  | JNum jsnum
  | JStr string
  | JArr "jsval list" "(string \<times> jsval) list"
  | JObj "(string \<times> jsval) list"

text \<open>
  The errors the program throws, and \<open>PrototypeChain\<close>, which is not an error of the
  program: it is the result of the embedding where the program leaves the own properties
  of its values (see the next section).
\<close>

datatype error = TypeError | EmptyFileError | ConsumerError nat | PrototypeChain

text \<open>
  \<^verbatim>\<open>ToBoolean\<close>. A finite literal is falsy when its binary64 value is zero: the least
  positive binary64 number is \<open>2\<^sup>-\<^sup>1\<^sup>0\<^sup>7\<^sup>4\<close>, and round-to-nearest, ties to even, sends
  exactly the values of magnitude at most \<open>2\<^sup>-\<^sup>1\<^sup>0\<^sup>7\<^sup>5\<close> to zero. The first two tests of
  the equation for a finite number follow from the third; they let zero and numbers of
  magnitude at least one be decided without it.
\<close>

fun truthy :: "jsval \<Rightarrow> bool" where
  "truthy JUndefined = False"
| "truthy JNull = False"
| "truthy (JBool b) = b"
| "truthy (JNum (Finite q)) =
     (if q = 0 then False else if 1 \<le> \<bar>q\<bar> then True else 1 < \<bar>q\<bar> * 2 ^ 1075)"
| "truthy (JNum NaN) = False"
| "truthy (JNum PosInfinity) = True"
| "truthy (JNum NegInfinity) = True"
| "truthy (JStr s) = (s \<noteq> [])"
| "truthy (JArr es ps) = True"
| "truthy (JObj ps) = True"

section \<open>Property access and the prototype chain\<close>

text \<open>
  The names of the properties that the runtime provides to every value other than
  \<^verbatim>\<open>null\<close> and \<^verbatim>\<open>undefined\<close>, those of \<^verbatim>\<open>Object.prototype\<close>; and the further names
  on \<^verbatim>\<open>Number.prototype\<close>, \<^verbatim>\<open>String.prototype\<close> and \<^verbatim>\<open>Array.prototype\<close> (ECMAScript 2024
  with its Annex B). \<^verbatim>\<open>Boolean.prototype\<close> has no further name.
\<close>

definition objectPrototype :: "string list" where
  "objectPrototype =
     [''constructor'', ''__defineGetter__'', ''__defineSetter__'', ''hasOwnProperty'',
      ''__lookupGetter__'', ''__lookupSetter__'', ''isPrototypeOf'', ''propertyIsEnumerable'',
      ''toString'', ''valueOf'', ''__proto__'', ''toLocaleString'']"

definition numberPrototype :: "string list" where
  "numberPrototype = [''toExponential'', ''toFixed'', ''toPrecision'']"

definition stringPrototype :: "string list" where
  "stringPrototype =
     [''at'', ''charAt'', ''charCodeAt'', ''codePointAt'', ''concat'', ''endsWith'', ''includes'',
      ''indexOf'', ''isWellFormed'', ''lastIndexOf'', ''localeCompare'', ''match'', ''matchAll'',
      ''normalize'', ''padEnd'', ''padStart'', ''repeat'', ''replace'', ''replaceAll'', ''search'',
      ''slice'', ''split'', ''startsWith'', ''substring'', ''toLocaleLowerCase'',
      ''toLocaleUpperCase'', ''toLowerCase'', ''toUpperCase'', ''toWellFormed'', ''trim'',
      ''trimEnd'', ''trimStart'', ''substr'', ''anchor'', ''big'', ''blink'', ''bold'', ''fixed'',
      ''fontcolor'', ''fontsize'', ''italics'', ''link'', ''small'', ''strike'', ''sub'', ''sup'',
      ''trimLeft'', ''trimRight'']"

definition arrayPrototype :: "string list" where
  "arrayPrototype =
     [''at'', ''concat'', ''copyWithin'', ''entries'', ''every'', ''fill'', ''filter'', ''find'',
      ''findIndex'', ''findLast'', ''findLastIndex'', ''flat'', ''flatMap'', ''forEach'',
      ''includes'', ''indexOf'', ''join'', ''keys'', ''lastIndexOf'', ''map'', ''pop'', ''push'',
      ''reduce'', ''reduceRight'', ''reverse'', ''shift'', ''slice'', ''some'', ''sort'', ''splice'',
      ''toReversed'', ''toSorted'', ''toSpliced'', ''unshift'', ''values'', ''with'']"

text \<open>The strings of digits: they include every index of a string or an array.\<close>

definition isIndex :: "string \<Rightarrow> bool" where
  "isIndex key \<longleftrightarrow> key \<noteq> [] \<and> list_all isDigit key"

text \<open>
  The own enumerable properties of a value, which \<^verbatim>\<open>for (const key in source)\<close>
  enumerates, and the names under which the runtime provides a property to the value
  beside them.
\<close>

fun ownProperties :: "jsval \<Rightarrow> (string \<times> jsval) list" where
  "ownProperties (JObj ps) = ps"
| "ownProperties (JArr es ps) = ps"
| "ownProperties v = []"

fun provided :: "jsval \<Rightarrow> string \<Rightarrow> bool" where
  "provided (JObj ps) key \<longleftrightarrow> key \<in> set objectPrototype"
| "provided (JArr es ps) key \<longleftrightarrow>
     key \<in> set objectPrototype \<or> key \<in> set arrayPrototype \<or> key = ''length'' \<or> isIndex key"
| "provided (JStr s) key \<longleftrightarrow>
     key \<in> set objectPrototype \<or> key \<in> set stringPrototype \<or> key = ''length'' \<or> isIndex key"
| "provided (JNum n) key \<longleftrightarrow> key \<in> set objectPrototype \<or> key \<in> set numberPrototype"
| "provided (JBool b) key \<longleftrightarrow> key \<in> set objectPrototype"
| "provided JNull key \<longleftrightarrow> False"
| "provided JUndefined key \<longleftrightarrow> False"

text \<open>
  \<^verbatim>\<open>target[key]\<close> as an expression. It throws on \<^verbatim>\<open>null\<close> and \<^verbatim>\<open>undefined\<close>. An own
  property is found first. Otherwise a name that the runtime provides yields a function
  or an object of the runtime, where the embedding stops, and any other name yields
  \<^verbatim>\<open>undefined\<close>.
\<close>

fun readProp :: "jsval \<Rightarrow> string \<Rightarrow> error + jsval" where
  "readProp JUndefined key = Inl TypeError"
| "readProp JNull key = Inl TypeError"
| "readProp target key =
     (case map_of (ownProperties target) key of
        Some v \<Rightarrow> Inr v
      | None \<Rightarrow> if provided target key then Inl PrototypeChain else Inr JUndefined)"

text \<open>
  The setter of \<^verbatim>\<open>__proto__\<close> on \<^verbatim>\<open>Object.prototype\<close> replaces the prototype of an object
  when it is given an object or \<^verbatim>\<open>null\<close>, and ignores every other value.
\<close>

fun setsPrototype :: "jsval \<Rightarrow> bool" where
  "setsPrototype JNull = True"
| "setsPrototype (JArr es ps) = True"
| "setsPrototype (JObj ps) = True"
| "setsPrototype v = False"

text \<open>
  \<^verbatim>\<open>target[key] = v\<close> in strict mode. On an object an existing own property keeps its
  place and a new one is appended, also under a name that the object inherits as a data
  property; but the name \<^verbatim>\<open>__proto__\<close>, when it is not an own property, runs the setter
  and creates no property. The index and \<^verbatim>\<open>length\<close> properties of an array are not
  followed. On a primitive value the assignment throws, except for \<^verbatim>\<open>__proto__\<close>, whose
  setter returns without effect.
\<close>

fun writeProp :: "jsval \<Rightarrow> string \<Rightarrow> jsval \<Rightarrow> error + jsval" where
  "writeProp (JObj ps) key v =
     (if map_of ps key = None \<and> key = ''__proto__''
        then (if setsPrototype v then Inl PrototypeChain else Inr (JObj ps))
      else Inr (JObj (AList.update key v ps)))"
| "writeProp (JArr es ps) key v =
     (if map_of ps key \<noteq> None then Inr (JArr es (AList.update key v ps))
      else if key = ''length'' \<or> isIndex key then Inl PrototypeChain
      else if key = ''__proto__''
        then (if setsPrototype v then Inl PrototypeChain else Inr (JArr es ps))
      else Inr (JArr es (AList.update key v ps)))"
| "writeProp JUndefined key v = Inl TypeError"
| "writeProp JNull key v = Inl TypeError"
| "writeProp target key v = (if key = ''__proto__'' then Inr target else Inl TypeError)"

section \<open>The path-to-object builder\<close>

text \<open>
  \<^verbatim>\<open>createNestedObject(key, value)\<close>; the function returns the own properties of
  \<^verbatim>\<open>result\<close>. The loop runs \<^verbatim>\<open>current[k] = current[k] || {}\<close> on a container it has just
  created: the read yields \<^verbatim>\<open>undefined\<close> and the fresh \<^verbatim>\<open>{}\<close> is stored, unless \<^verbatim>\<open>k\<close>
  names a property of \<^verbatim>\<open>Object.prototype\<close>, where the program would descend into an
  object of the runtime. The last step is the assignment \<^verbatim>\<open>current[lastKey] = value\<close>
  to the innermost fresh container.
\<close>

fun createNestedObject_loop :: "string list \<Rightarrow> jsval \<Rightarrow> error + (string \<times> jsval) list" where
  "createNestedObject_loop [] v = Inr []"
| "createNestedObject_loop [lastKey] v =
     (case writeProp (JObj []) (trim lastKey) v of
        Inl e \<Rightarrow> Inl e
      | Inr current \<Rightarrow> Inr (ownProperties current))"
| "createNestedObject_loop (k # ks) v =
     (case readProp (JObj []) (trim k) of
        Inl e \<Rightarrow> Inl e
      | Inr absent \<Rightarrow>
          (case createNestedObject_loop ks v of
             Inl e \<Rightarrow> Inl e
           | Inr sub \<Rightarrow> Inr [(trim k, JObj sub)]))"

definition createNestedObject :: "string \<Rightarrow> jsval \<Rightarrow> error + (string \<times> jsval) list" where
  "createNestedObject key v = createNestedObject_loop (split dot key) v"

section \<open>The deep merger\<close>

text \<open>
  \<^verbatim>\<open>mergeDeep(target, source)\<close>, by recursion over the properties of \<^verbatim>\<open>source\<close> that
  \<^verbatim>\<open>for (const key in source)\<close> enumerates. The first equation for a non-empty source is
  the branch taken when \<^verbatim>\<open>source[key]\<close> is truthy, of type \<^verbatim>\<open>object\<close> and not an array:
  it reads \<^verbatim>\<open>target[key]\<close> for the test, stores \<^verbatim>\<open>{}\<close> when that is falsy, and reads
  \<^verbatim>\<open>target[key]\<close> again for the recursive call. Every other source value takes the
  \<^verbatim>\<open>else\<close> branch. The source mutates \<^verbatim>\<open>target\<close> in place; the model returns the new
  value, and writes the merged child back to the own property it was read from.
\<close>

fun mergeDeep :: "jsval \<Rightarrow> (string \<times> jsval) list \<Rightarrow> error + jsval" where
  "mergeDeep target [] = Inr target"
| "mergeDeep target ((key, JObj sps) # rest) =
     (case readProp target key of
        Inl e \<Rightarrow> Inl e
      | Inr tv \<Rightarrow>
          (case (if \<not> truthy tv then writeProp target key (JObj []) else Inr target) of
             Inl e \<Rightarrow> Inl e
           | Inr target1 \<Rightarrow>
               (case readProp target1 key of
                  Inl e \<Rightarrow> Inl e
                | Inr tv1 \<Rightarrow>
                    (case mergeDeep tv1 sps of
                       Inl e \<Rightarrow> Inl e
                     | Inr child \<Rightarrow>
                         (case writeProp target1 key child of
                            Inl e \<Rightarrow> Inl e
                          | Inr target2 \<Rightarrow> mergeDeep target2 rest)))))"
| "mergeDeep target ((key, v) # rest) =
     (case writeProp target key v of
        Inl e \<Rightarrow> Inl e
      | Inr target1 \<Rightarrow> mergeDeep target1 rest)"

section \<open>Numeric strings\<close>

text \<open>
  \<^verbatim>\<open>Number(value)\<close> and \<^verbatim>\<open>isNaN(value)\<close> on a string apply the grammar
  \<^verbatim>\<open>StringNumericLiteral\<close> of ECMAScript: white space around an optional literal, which is
  a signed decimal literal (with \<^verbatim>\<open>Infinity\<close>, an optional fraction and an optional
  exponent) or an unsigned binary, octal or hexadecimal integer. The empty string is the
  number zero.
\<close>

definition isHexDigit :: "char \<Rightarrow> bool" where
  "isHexDigit c \<longleftrightarrow> c \<in> set ''0123456789abcdefABCDEF''"

definition digitValue :: "char \<Rightarrow> nat" where
  "digitValue c =
     (if isDigit c then of_char c - 48
      else if c \<in> set ''abcdef'' then of_char c - 87
      else of_char c - 55)"

definition digitsValue :: "nat \<Rightarrow> string \<Rightarrow> nat" where
  "digitsValue base ds = foldl (\<lambda>n c. n * base + digitValue c) 0 ds"

definition scale10 :: "rat \<Rightarrow> int \<Rightarrow> rat" where
  "scale10 m e = (if 0 \<le> e then m * 10 ^ nat e else m / 10 ^ nat (- e))"

definition SignedInteger :: "string \<Rightarrow> int option" where
  "SignedInteger s =
     (case s of
        [] \<Rightarrow> None
      | c # r \<Rightarrow>
          if c = CHR ''-'' then
            (if r \<noteq> [] \<and> list_all isDigit r then Some (- int (digitsValue 10 r)) else None)
          else if c = CHR ''+'' then
            (if r \<noteq> [] \<and> list_all isDigit r then Some (int (digitsValue 10 r)) else None)
          else
            (if list_all isDigit s then Some (int (digitsValue 10 s)) else None))"

definition ExponentPart_opt :: "string \<Rightarrow> int option" where
  "ExponentPart_opt s =
     (case s of
        [] \<Rightarrow> Some 0
      | c # r \<Rightarrow> if c = CHR ''e'' \<or> c = CHR ''E'' then SignedInteger r else None)"

definition StrUnsignedDecimalLiteral :: "bool \<Rightarrow> string \<Rightarrow> jsnum" where
  "StrUnsignedDecimalLiteral negative u =
     (if u = ''Infinity'' then (if negative then NegInfinity else PosInfinity)
      else
        let ip = takeWhile isDigit u;
            r1 = dropWhile isDigit u;
            fp = (case r1 of [] \<Rightarrow> [] | c # r \<Rightarrow> if c = dot then takeWhile isDigit r else []);
            r2 = (case r1 of [] \<Rightarrow> [] | c # r \<Rightarrow> if c = dot then dropWhile isDigit r else r1)
        in if ip = [] \<and> fp = [] then NaN
           else (case ExponentPart_opt r2 of
                   None \<Rightarrow> NaN
                 | Some e \<Rightarrow>
                     Finite (scale10
                       ((if negative then - 1 else 1) * of_nat (digitsValue 10 (ip @ fp)))
                       (e - int (length fp)))))"

definition StrDecimalLiteral :: "string \<Rightarrow> jsnum" where
  "StrDecimalLiteral t =
     (case t of
        [] \<Rightarrow> NaN
      | c # u \<Rightarrow>
          if c = CHR ''+'' then StrUnsignedDecimalLiteral False u
          else if c = CHR ''-'' then StrUnsignedDecimalLiteral True u
          else StrUnsignedDecimalLiteral False t)"

definition NonDecimalIntegerLiteral :: "string \<Rightarrow> jsnum option" where
  "NonDecimalIntegerLiteral t =
     (case t of
        c0 # c1 # ds \<Rightarrow>
          if c0 = CHR ''0'' \<and> ds \<noteq> [] then
            (if (c1 = CHR ''x'' \<or> c1 = CHR ''X'') \<and> list_all isHexDigit ds
               then Some (Finite (of_nat (digitsValue 16 ds)))
             else if (c1 = CHR ''o'' \<or> c1 = CHR ''O'') \<and> list_all (\<lambda>c. c \<in> set ''01234567'') ds
               then Some (Finite (of_nat (digitsValue 8 ds)))
             else if (c1 = CHR ''b'' \<or> c1 = CHR ''B'') \<and> list_all (\<lambda>c. c \<in> set ''01'') ds
               then Some (Finite (of_nat (digitsValue 2 ds)))
             else None)
          else None
      | _ \<Rightarrow> None)"

definition StringToNumber :: "string \<Rightarrow> jsnum" where
  "StringToNumber s =
     (let t = trim s in
      if t = [] then Finite 0
      else (case NonDecimalIntegerLiteral t of
              Some n \<Rightarrow> n
            | None \<Rightarrow> StrDecimalLiteral t))"

definition isNaN :: "jsnum \<Rightarrow> bool" where
  "isNaN n \<longleftrightarrow> n = NaN"

section \<open>The row materializer\<close>

text \<open>
  The coercion of one trimmed field: \<^verbatim>\<open>if (!isNaN(value) && value !== '') value = Number(value)\<close>.
\<close>

definition coerceValue :: "string \<Rightarrow> jsval" where
  "coerceValue v =
     (if \<not> isNaN (StringToNumber v) \<and> v \<noteq> [] then JNum (StringToNumber v) else JStr v)"

text \<open>
  The loop \<^verbatim>\<open>for (let j = 0; j < headers.length; j++)\<close>, which both entry points
  contain verbatim: it runs over the headers, and reading \<^verbatim>\<open>values[j]\<close> past the end
  gives \<^verbatim>\<open>undefined\<close>, whose \<^verbatim>\<open>trim\<close> throws. Each step builds the nested object of one
  field and merges it into the record.
\<close>

fun row_loop :: "jsval \<Rightarrow> string list \<Rightarrow> string list \<Rightarrow> error + jsval" where
  "row_loop record [] vs = Inr record"
| "row_loop record (h # hs) [] = Inl TypeError"
| "row_loop record (h # hs) (v # vs) =
     (case createNestedObject (trim h) (coerceValue (trim v)) of
        Inl e \<Rightarrow> Inl e
      | Inr nestedObj \<Rightarrow>
          (case mergeDeep record nestedObj of
             Inl e \<Rightarrow> Inl e
           | Inr record1 \<Rightarrow> row_loop record1 hs vs))"

definition materialize :: "string list \<Rightarrow> string list \<Rightarrow> error + jsval" where
  "materialize hs vs = row_loop (JObj []) hs vs"

section \<open>The whole-file loader\<close>

text \<open>
  \<^verbatim>\<open>parse()\<close> on the content of the file. The result pairs the line numbers passed to
  \<^verbatim>\<open>console.warn\<close> with the returned records or the error thrown. An error of the row
  loop is not caught per row: it leaves the loop and is rethrown. Where the row loop
  stops at the prototype chain, so does the loader.
\<close>

fun parse_loop ::
  "string list \<Rightarrow> nat \<Rightarrow> string list \<Rightarrow> nat list \<Rightarrow> jsval list \<Rightarrow> nat list \<times> (error + jsval list)"
where
  "parse_loop hs i [] warnings records = (warnings, Inr records)"
| "parse_loop hs i (line # rest) warnings records =
     (let values = parseLine line in
      if length values \<noteq> length hs
        then parse_loop hs (i + 1) rest (warnings @ [i + 1]) records
      else (case materialize hs values of
              Inl e \<Rightarrow> (warnings, Inl e)
            | Inr record \<Rightarrow> parse_loop hs (i + 1) rest warnings (records @ [record])))"

definition parse :: "string \<Rightarrow> nat list \<times> (error + jsval list)" where
  "parse fileContent =
     (case filter (\<lambda>line. trim line \<noteq> []) (split newline fileContent) of
        [] \<Rightarrow> ([], Inl EmptyFileError)
      | header # rest \<Rightarrow> parse_loop (parseLine header) 1 rest [] [])"

section \<open>The streaming pipeline\<close>

text \<open>
  \<^verbatim>\<open>parseStream(batchSize, onBatch)\<close> registers two asynchronous listeners on a
  \<^verbatim>\<open>readline\<close> interface and returns a promise. Each listener runs synchronously up to
  its \<^verbatim>\<open>await onBatch(batch)\<close>; what follows the \<^verbatim>\<open>await\<close> runs later, when the promise
  of that consumer call settles. The embedding has one function for each of these four
  pieces of code, over the variables the listeners share.

  The state: the variables \<^verbatim>\<open>headers\<close>, \<^verbatim>\<open>batch\<close>, \<^verbatim>\<open>lineNumber\<close> and
  \<^verbatim>\<open>totalRecords\<close>; the flags \<^verbatim>\<open>paused\<close> and \<^verbatim>\<open>closed\<close> of the interface; the outcome
  of the returned promise (\<open>Inr n\<close> for \<^verbatim>\<open>resolve(n)\<close>, \<open>Inl e\<close> for \<^verbatim>\<open>reject(e)\<close>); every
  consumer call made so far, with the listener that made it and the contents of the array
  at the moment of the call; the calls that have not settled; and the line numbers
  written by \<^verbatim>\<open>console.warn\<close> and by \<^verbatim>\<open>console.error\<close>.
\<close>

datatype origin = LineListener | CloseListener

record pipeline =
  headers :: "string list option"
  batch :: "jsval list"
  lineNumber :: nat
  totalRecords :: nat
  paused :: bool
  closed :: bool
  outcome :: "(error + nat) option"
  calls :: "(origin \<times> jsval list) list"
  pending :: "nat list"
  warned :: "nat list"
  failed :: "nat list"

definition initial :: pipeline where
  "initial =
     \<lparr>headers = None, batch = [], lineNumber = 0, totalRecords = 0, paused = False,
      closed = False, outcome = None, calls = [], pending = [], warned = [], failed = []\<rparr>"

text \<open>A promise settles once: a later \<^verbatim>\<open>resolve\<close> or \<^verbatim>\<open>reject\<close> has no effect.\<close>

definition resolve :: "nat \<Rightarrow> pipeline \<Rightarrow> pipeline" where
  "resolve n st = (if outcome st = None then st\<lparr>outcome := Some (Inr n)\<rparr> else st)"

definition reject :: "error \<Rightarrow> pipeline \<Rightarrow> pipeline" where
  "reject e st = (if outcome st = None then st\<lparr>outcome := Some (Inl e)\<rparr> else st)"

text \<open>\<^verbatim>\<open>onBatch(batch)\<close>: the call starts now and is pending until it settles.\<close>

definition onBatch :: "origin \<Rightarrow> pipeline \<Rightarrow> pipeline" where
  "onBatch from st =
     st\<lparr>calls := calls st @ [(from, batch st)], pending := pending st @ [length (calls st)]\<rparr>"

text \<open>
  The \<^verbatim>\<open>'line'\<close> listener, up to its \<^verbatim>\<open>await\<close>. An error thrown by the row loop is caught
  and logged. The listener has no result where the row loop leaves the own properties of
  its values: the embedding does not follow the pipeline from there.
\<close>

definition onLine :: "nat \<Rightarrow> string \<Rightarrow> pipeline \<Rightarrow> pipeline option" where
  "onLine batchSize line st =
     (let st1 = st\<lparr>lineNumber := lineNumber st + 1\<rparr> in
      if trim line = [] then Some st1
      else if lineNumber st1 = 1 then Some (st1\<lparr>headers := Some (parseLine line)\<rparr>)
      else
        (case headers st1 of
           None \<Rightarrow> Some (st1\<lparr>failed := failed st1 @ [lineNumber st1]\<rparr>)
         | Some hs \<Rightarrow>
             let values = parseLine line in
             if length values \<noteq> length hs
               then Some (st1\<lparr>warned := warned st1 @ [lineNumber st1]\<rparr>)
             else
               (case materialize hs values of
                  Inl e \<Rightarrow>
                    if e = PrototypeChain then None
                    else Some (st1\<lparr>failed := failed st1 @ [lineNumber st1]\<rparr>)
                | Inr record \<Rightarrow>
                    let st2 = st1\<lparr>batch := batch st1 @ [record],
                                  totalRecords := totalRecords st1 + 1\<rparr>
                    in if batchSize \<le> length (batch st2)
                         then Some (onBatch LineListener (st2\<lparr>paused := True\<rparr>))
                       else Some st2)))"

text \<open>The loop of the interface over the lines of one chunk.\<close>

fun onLines :: "nat \<Rightarrow> string list \<Rightarrow> pipeline \<Rightarrow> pipeline option" where
  "onLines batchSize [] st = Some st"
| "onLines batchSize (line # ls) st =
     (case onLine batchSize line st of
        None \<Rightarrow> None
      | Some st1 \<Rightarrow> onLines batchSize ls st1)"

text \<open>The \<^verbatim>\<open>'close'\<close> listener, up to its \<^verbatim>\<open>await\<close>.\<close>

definition onClose :: "pipeline \<Rightarrow> pipeline" where
  "onClose st =
     (if batch st \<noteq> [] then onBatch CloseListener st else resolve (totalRecords st) st)"

text \<open>
  \<^verbatim>\<open>rl.close()\<close>: on an interface that is not yet closed it pauses the input, marks the
  interface closed and emits \<^verbatim>\<open>'close'\<close>, which runs the listener before \<^verbatim>\<open>close\<close> returns.
\<close>

definition rl_close :: "pipeline \<Rightarrow> pipeline" where
  "rl_close st = (if closed st then st else onClose (st\<lparr>paused := True, closed := True\<rparr>))"

text \<open>
  The \<^verbatim>\<open>'line'\<close> listener after its \<^verbatim>\<open>await\<close>: with \<open>None\<close> the consumer call was
  fulfilled, with \<open>Some e\<close> it threw \<open>e\<close>.
\<close>

definition afterBatch :: "error option \<Rightarrow> pipeline \<Rightarrow> pipeline" where
  "afterBatch r st =
     (case r of
        None \<Rightarrow> st\<lparr>batch := [], paused := False\<rparr>
      | Some e \<Rightarrow> reject e (rl_close st))"

text \<open>The \<^verbatim>\<open>'close'\<close> listener after its \<^verbatim>\<open>await\<close>.\<close>

definition afterFinalBatch :: "error option \<Rightarrow> pipeline \<Rightarrow> pipeline" where
  "afterFinalBatch r st =
     (case r of
        None \<Rightarrow> resolve (totalRecords st) st
      | Some e \<Rightarrow> reject e st)"

text \<open>
  What the runtime does to the pipeline, one event at a time.
  \<^item> \<open>Chunk ls\<close>: the input stream hands one chunk of data to the interface, which emits
    \<^verbatim>\<open>'line'\<close> for each line \<open>ls\<close> of the chunk in a loop. A paused or closed interface
    receives no chunk, but \<^verbatim>\<open>rl.pause()\<close> called by a listener does not stop the loop over
    the chunk that is being processed (the documentation of \<^verbatim>\<open>readline\<close>: calling
    \<^verbatim>\<open>rl.pause()\<close> does not immediately pause other events, including \<^verbatim>\<open>'line'\<close>, from
    being emitted), and no code after an \<^verbatim>\<open>await\<close> runs inside the loop.
  \<^item> \<open>Settle k r\<close>: the promise of the pending consumer call number \<open>k\<close> settles with \<open>r\<close>,
    and the listener that awaits it continues.
  \<^item> \<open>EndOfInput final\<close>: the input stream ends while flowing. The interface emits
    \<^verbatim>\<open>'line'\<close> for the text after the last line terminator, if there is any, and then
    closes itself.
  An event that cannot happen in a state has no successor, and neither has an event
  whose listener has no result. The \<^verbatim>\<open>'error'\<close> event of the interface, whose listener
  rejects the promise, is not modelled.
\<close>

datatype event = Chunk "string list" | Settle nat "error option" | EndOfInput "string option"

fun step :: "nat \<Rightarrow> event \<Rightarrow> pipeline \<Rightarrow> pipeline option" where
  "step batchSize (Chunk ls) st =
     (if paused st \<or> closed st then None
      else onLines batchSize ls st)"
| "step batchSize (Settle k r) st =
     (if k \<in> set (pending st) then
        (let st1 = st\<lparr>pending := removeAll k (pending st)\<rparr> in
         case fst (calls st ! k) of
           LineListener \<Rightarrow> Some (afterBatch r st1)
         | CloseListener \<Rightarrow> Some (afterFinalBatch r st1))
      else None)"
| "step batchSize (EndOfInput final) st =
     (if paused st \<or> closed st then None
      else (case final of
              None \<Rightarrow> Some (rl_close st)
            | Some line \<Rightarrow> map_option rl_close (onLine batchSize line st)))"

fun run :: "nat \<Rightarrow> event list \<Rightarrow> pipeline \<Rightarrow> pipeline option" where
  "run batchSize [] st = Some st"
| "run batchSize (ev # evs) st =
     (case step batchSize ev st of
        None \<Rightarrow> None
      | Some st1 \<Rightarrow> run batchSize evs st1)"

section \<open>The numeric grammar of the specification\<close>



section \<open>The merge of the specification\<close>

text \<open>
  The specification describes the deep merge as: for every key of the source, if the
  target value at that key is a nested container and the source value is a nested
  container too (not a scalar or an array), recurse into it; otherwise assign the source
  value directly, overwriting whatever was at the target key. This function follows those
  words, on the properties of the two objects; it is compared with \<^const>\<open>mergeDeep\<close> below.
\<close>

fun spec_mergeDeep :: "(string \<times> jsval) list \<Rightarrow> (string \<times> jsval) list \<Rightarrow> (string \<times> jsval) list" where
  "spec_mergeDeep tps [] = tps"
| "spec_mergeDeep tps ((key, JObj sps) # rest) =
     (case map_of tps key of
        Some (JObj tsub) \<Rightarrow>
          spec_mergeDeep (AList.update key (JObj (spec_mergeDeep tsub sps)) tps) rest
      | _ \<Rightarrow> spec_mergeDeep (AList.update key (JObj sps) tps) rest)"
| "spec_mergeDeep tps ((key, v) # rest) = spec_mergeDeep (AList.update key v tps) rest"

text \<open>The own properties of an object have distinct names, at every depth.\<close>

fun wf_props :: "(string \<times> jsval) list \<Rightarrow> bool" where
  "wf_props [] = True"
| "wf_props ((key, JObj sps) # rest) = (key \<notin> fst ` set rest \<and> wf_props sps \<and> wf_props rest)"
| "wf_props ((key, v) # rest) = (key \<notin> fst ` set rest \<and> wf_props rest)"

text \<open>
  No key pairs a container of the source with a truthy target value that is not a
  container.
\<close>

fun mergeable :: "(string \<times> jsval) list \<Rightarrow> (string \<times> jsval) list \<Rightarrow> bool" where
  "mergeable tps [] = True"
| "mergeable tps ((key, JObj sps) # rest) =
     ((case map_of tps key of
         None \<Rightarrow> True
       | Some (JObj tsub) \<Rightarrow> mergeable tsub sps
       | Some tv \<Rightarrow> \<not> truthy tv)
      \<and> mergeable tps rest)"
| "mergeable tps ((key, v) # rest) = mergeable tps rest"

text \<open>Every key of the object, at every depth, satisfies the predicate.\<close>

fun all_keys :: "(string \<Rightarrow> bool) \<Rightarrow> (string \<times> jsval) list \<Rightarrow> bool" where
  "all_keys P [] = True"
| "all_keys P ((key, JObj sps) # rest) = (P key \<and> all_keys P sps \<and> all_keys P rest)"
| "all_keys P ((key, v) # rest) = (P key \<and> all_keys P rest)"

text \<open>No key of the object, at any depth, names a property of \<^verbatim>\<open>Object.prototype\<close>.\<close>

definition plain_props :: "(string \<times> jsval) list \<Rightarrow> bool" where
  "plain_props ps = all_keys (\<lambda>key. key \<notin> set objectPrototype) ps"


section \<open>The key shape of a record\<close>

text \<open>
  The shape of a value forgets its leaves: a plain object is a node with the shapes of
  its properties, and anything else is a leaf.
\<close>

datatype shape = Leaf | Node "(string \<times> shape) list"

fun shape_props :: "(string \<times> jsval) list \<Rightarrow> (string \<times> shape) list" where
  "shape_props [] = []"
| "shape_props ((key, JObj sps) # rest) = (key, Node (shape_props sps)) # shape_props rest"
| "shape_props ((key, v) # rest) = (key, Leaf) # shape_props rest"

fun shape_of :: "jsval \<Rightarrow> shape" where
  "shape_of (JObj ps) = Node (shape_props ps)"
| "shape_of v = Leaf"



text \<open>
  A name that the runtime provides to no value: the property of that name is found
  among the own properties or not at all. A header list is plain when every segment of
  every dotted path is such a name.
\<close>

definition plainKey :: "string \<Rightarrow> bool" where
  "plainKey key \<longleftrightarrow>
     key \<notin> set objectPrototype \<and> key \<notin> set numberPrototype \<and> key \<notin> set stringPrototype
     \<and> key \<notin> set arrayPrototype \<and> key \<noteq> ''length'' \<and> \<not> isIndex key"

definition plain_headers :: "string list \<Rightarrow> bool" where
  "plain_headers hs \<longleftrightarrow>
     list_all (\<lambda>h. list_all (\<lambda>k. plainKey (trim k)) (split dot (trim h))) hs"


definition scalar :: "jsval \<Rightarrow> bool" where
  "scalar v \<longleftrightarrow> (case v of JStr s \<Rightarrow> True | JNum n \<Rightarrow> True | _ \<Rightarrow> False)"

section \<open>Observations of the pipeline\<close>





text \<open>The number of records in each consumer call, in the order of the calls.\<close>

definition sizes :: "pipeline \<Rightarrow> nat list" where
  "sizes st = map (\<lambda>c. length (snd c)) (calls st)"

text \<open>A schedule in which no chunk holds more than one line.\<close>

definition line_at_a_time :: "event list \<Rightarrow> bool" where
  "line_at_a_time evs \<longleftrightarrow>
     list_all (\<lambda>ev. case ev of Chunk ls \<Rightarrow> length ls \<le> 1 | _ \<Rightarrow> True) evs"

text \<open>
  The states of such schedules: the batch is within the batch size; an interface that is
  neither paused nor closed has room in the batch and no pending consumer call; an open
  interface has at most one pending call; and no consumer call was made with more records
  than the batch size.
\<close>

definition sequential :: "nat \<Rightarrow> pipeline \<Rightarrow> bool" where
  "sequential batchSize st \<longleftrightarrow>
     length (batch st) \<le> batchSize
     \<and> (paused st \<or> closed st \<or> (length (batch st) < batchSize \<and> pending st = []))
     \<and> (closed st \<or> length (pending st) \<le> 1)
     \<and> list_all (\<lambda>c. length (snd c) \<le> batchSize) (calls st)"

section \<open>Properties of the line splitter\<close>










section \<open>Properties of the numeric coercion\<close>





















section \<open>Properties of the deep merger\<close>

text \<open>The truthiness of a finite number is the rounding test alone.\<close>

lemma truthy_Finite: "truthy (JNum (Finite q)) \<longleftrightarrow> 1 < \<bar>q\<bar> * 2 ^ 1075"
proof -
  have "1 \<le> \<bar>q\<bar> \<Longrightarrow> 1 < \<bar>q\<bar> * 2 ^ 1075"
  proof -
    assume q: "1 \<le> \<bar>q\<bar>"
    have "(1::rat) < 2 ^ 1075" by simp
    also have "\<dots> \<le> \<bar>q\<bar> * 2 ^ 1075" using q by simp
    finally show ?thesis .
  qed
  then show ?thesis by auto
qed

text \<open>Reads and writes on the own properties of an object.\<close>

lemma proto_inherited: "''__proto__'' \<in> set objectPrototype"
  by (simp add: objectPrototype_def)

lemma readProp_plain:
  "key \<notin> set objectPrototype \<Longrightarrow>
   readProp (JObj tps) key = Inr (case map_of tps key of None \<Rightarrow> JUndefined | Some v \<Rightarrow> v)"
  by (cases "map_of tps key") simp_all

lemma mergeDeep_container:
  assumes "readProp (JObj tps) key = Inr tv"
  shows "mergeDeep (JObj tps) ((key, JObj sps) # rest) =
     (case mergeDeep (if truthy tv then tv else JObj []) sps of
        Inl e \<Rightarrow> Inl e
      | Inr child \<Rightarrow> mergeDeep (JObj (AList.update key child tps)) rest)"
proof (cases "map_of tps key")
  case None
  with assms have np: "key \<noteq> ''__proto__''" and tv: "tv = JUndefined"
    using proto_inherited by (auto split: if_splits)
  show ?thesis using None np tv assms
    by (auto simp: update_conv' update_last split: sum.splits option.splits)
next
  case (Some w)
  with assms have tv: "tv = w" by simp
  show ?thesis using Some tv
    by (auto simp: update_conv' update_last split: sum.splits option.splits)
qed

lemma mergeDeep_assign:
  "\<forall>sps. v \<noteq> JObj sps \<Longrightarrow> key = ''__proto__'' \<longrightarrow> key \<in> fst ` set tps \<Longrightarrow>
   mergeDeep (JObj tps) ((key, v) # rest) = mergeDeep (JObj (AList.update key v tps)) rest"
  by (cases v) (auto simp: map_of_eq_None_iff)

lemma mergeDeep_proto_ignored:
  "\<not> setsPrototype v \<Longrightarrow> ''__proto__'' \<notin> fst ` set tps \<Longrightarrow>
   mergeDeep (JObj tps) ((''__proto__'', v) # rest) = mergeDeep (JObj tps) rest"
  by (cases v) (auto simp: map_of_eq_None_iff)






lemma update_fresh: "key \<notin> fst ` set acc \<Longrightarrow> AList.update key v acc = acc @ [(key, v)]"
  by (induction acc) auto

lemma map_of_fresh: "key \<notin> fst ` set acc \<Longrightarrow> map_of acc key = None"
  by (simp add: map_of_eq_None_iff)

lemma all_keys_cons:
  "all_keys P ((key, v) # rest) \<longleftrightarrow>
     P key \<and> (case v of JObj sps \<Rightarrow> all_keys P sps | _ \<Rightarrow> True) \<and> all_keys P rest"
  by (cases v) auto

lemma mergeDeep_copy:
  "wf_props sps \<Longrightarrow> plain_props sps \<Longrightarrow> fst ` set acc \<inter> fst ` set sps = {} \<Longrightarrow>
   mergeDeep (JObj acc) sps = Inr (JObj (acc @ sps))"
proof (induction sps arbitrary: acc rule: wf_props.induct)
  case 1
  then show ?case by simp
next
  case (2 key sub rest)
  have fresh: "key \<notin> fst ` set acc" using "2.prems"(3) by auto
  from "2.prems"(2) have plain: "key \<notin> set objectPrototype" and psub: "plain_props sub"
    and prest: "plain_props rest" by (simp_all add: plain_props_def)
  have tv: "readProp (JObj acc) key = Inr JUndefined"
    using readProp_plain [OF plain, of acc] fresh by (simp add: map_of_fresh)
  have sub: "mergeDeep (JObj []) sub = Inr (JObj sub)"
    using "2.IH"(1) [of "[]"] "2.prems"(1) psub by simp
  have "fst ` set (acc @ [(key, JObj sub)]) \<inter> fst ` set rest = {}"
    using "2.prems" by auto
  then have rest: "mergeDeep (JObj (acc @ [(key, JObj sub)])) rest =
      Inr (JObj ((acc @ [(key, JObj sub)]) @ rest))"
    using "2.IH"(2) "2.prems"(1) prest by simp
  show ?case
    unfolding mergeDeep_container [OF tv]
    using fresh sub rest by (simp add: update_fresh)
qed (use proto_inherited in \<open>fastforce simp: update_fresh plain_props_def map_of_eq_None_iff\<close>)+


lemma mergeable_update:
  "key \<notin> fst ` set rest \<Longrightarrow> mergeable (AList.update key x tps) rest = mergeable tps rest"
proof (induction rest)
  case Nil
  then show ?case by simp
next
  case (Cons p rest)
  obtain k v where p: "p = (k, v)" by (cases p)
  from Cons.prems have ne: "k \<noteq> key" and "key \<notin> fst ` set rest" by (auto simp: p)
  with Cons.IH have IH: "mergeable (AList.update key x tps) rest = mergeable tps rest" by simp
  show ?case using IH ne by (cases v) (simp_all add: p update_conv')
qed

lemma mergeDeep_refines:
  "wf_props sps \<Longrightarrow> plain_props sps \<Longrightarrow> mergeable tps sps \<Longrightarrow>
   mergeDeep (JObj tps) sps = Inr (JObj (spec_mergeDeep tps sps))"
proof (induction sps arbitrary: tps rule: wf_props.induct)
  case 1
  then show ?case by simp
next
  case (2 key sub rest)
  from "2.prems"(1) have fresh: "key \<notin> fst ` set rest" and wsub: "wf_props sub"
    and wrest: "wf_props rest" by simp_all
  from "2.prems"(2) have plain: "key \<notin> set objectPrototype" and psub: "plain_props sub"
    and prest: "plain_props rest" by (simp_all add: plain_props_def)
  from "2.prems"(3) have mrest: "mergeable tps rest" by simp
  let ?tv = "case map_of tps key of None \<Rightarrow> JUndefined | Some v \<Rightarrow> v"
  have tv: "readProp (JObj tps) key = Inr ?tv" by (rule readProp_plain [OF plain])
  have cont: "\<And>child. mergeDeep (JObj (AList.update key child tps)) rest =
      Inr (JObj (spec_mergeDeep (AList.update key child tps) rest))"
    using "2.IH"(2) wrest prest mrest fresh by (simp add: mergeable_update)
  show ?case
  proof (cases "\<exists>tsub. map_of tps key = Some (JObj tsub)")
    case True
    then obtain tsub where t: "map_of tps key = Some (JObj tsub)" by blast
    with "2.prems"(3) have "mergeable tsub sub" by simp
    with "2.IH"(1) wsub psub have "mergeDeep (JObj tsub) sub = Inr (JObj (spec_mergeDeep tsub sub))"
      by simp
    then show ?thesis
      unfolding mergeDeep_container [OF tv] using t cont by simp
  next
    case False
    with "2.prems"(3) have falsy: "\<not> truthy ?tv"
      by (auto split: option.splits jsval.splits)
    from False have spec: "spec_mergeDeep tps ((key, JObj sub) # rest) =
        spec_mergeDeep (AList.update key (JObj sub) tps) rest"
      by (auto split: option.splits jsval.splits)
    have "mergeDeep (JObj []) sub = Inr (JObj sub)"
      using mergeDeep_copy [OF wsub psub, of "[]"] by simp
    then show ?thesis
      unfolding mergeDeep_container [OF tv] spec using falsy cont by simp
  qed
qed (use proto_inherited in \<open>fastforce simp: mergeable_update plain_props_def\<close>)+

lemma wf_props_leaf: "\<forall>sub. v \<noteq> JObj sub \<Longrightarrow> wf_props [(k, v)]"
  by (cases v) simp_all

lemma createNestedObject_loop_last:
  "createNestedObject_loop [lastKey] v =
     (if trim lastKey = ''__proto__''
        then (if setsPrototype v then Inl PrototypeChain else Inr [])
      else Inr [(trim lastKey, v)])"
  by simp

lemma createNestedObject_loop_cons:
  "createNestedObject_loop (k # k' # ks) v = Inr src \<longleftrightarrow>
     trim k \<notin> set objectPrototype
     \<and> (\<exists>sub. createNestedObject_loop (k' # ks) v = Inr sub \<and> src = [(trim k, JObj sub)])"
  by (auto split: sum.splits)

lemma wf_props_createNestedObject_loop:
  "\<forall>sub. v \<noteq> JObj sub \<Longrightarrow> createNestedObject_loop ks v = Inr src \<Longrightarrow> wf_props src"
proof (induction ks arbitrary: src)
  case Nil
  then show ?case by simp
next
  case (Cons k ks)
  show ?case
  proof (cases ks)
    case Nil
    with Cons.prems show ?thesis
      unfolding Nil createNestedObject_loop_last by (auto simp: wf_props_leaf split: if_splits)
  next
    case (Cons k' ks')
    from Cons.prems(2) obtain sub where sub: "createNestedObject_loop ks v = Inr sub"
      and src: "src = [(trim k, JObj sub)]"
      unfolding Cons createNestedObject_loop_cons by blast
    from Cons.IH [OF Cons.prems(1) sub] show ?thesis by (simp add: src)
  qed
qed

lemma coerceValue_not_object: "coerceValue s \<noteq> JObj sub"
  by (simp add: coerceValue_def)

text \<open>
  Claim C6, as the specification states it, fails. With the target \<^verbatim>\<open>{a: 5}\<close> and the
  singleton \<^verbatim>\<open>{a: {b: 6}}\<close> the target value is not a nested container, so the described
  algorithm assigns the source value over it; the code recurses into the number and
  throws.
\<close>

theorem mergeDeep_scalar_target_counterexample:
  "createNestedObject ''a.b'' (JNum (Finite 6)) = Inr [(''a'', JObj [(''b'', JNum (Finite 6))])]
   \<and> mergeDeep (JObj [(''a'', JNum (Finite 5))]) [(''a'', JObj [(''b'', JNum (Finite 6))])] =
       Inl TypeError
   \<and> spec_mergeDeep [(''a'', JNum (Finite 5))] [(''a'', JObj [(''b'', JNum (Finite 6))])] =
       [(''a'', JObj [(''b'', JNum (Finite 6))])]"
  by code_simp

text \<open>
  Claim C6, amended. The deep merge recurses into a key exactly when the source value at
  that key is a nested container: into the value that the read of the target at that key
  returns when that value is truthy, and into a fresh empty container stored there when it
  is absent or falsy. In every other case it assigns the source value directly over
  whatever was at the target key, and an array-valued source field is assigned wholesale.
  This is so on own properties: the key \<^verbatim>\<open>__proto__\<close>, when it is not an own property of
  the target, is assigned through the inherited setter, which ignores a primitive value.
  A singleton structure built from a field value has distinct keys, and on a source with
  distinct keys, none of which names a property of \<^verbatim>\<open>Object.prototype\<close>, the merge returns
  the result of the described algorithm whenever no key pairs a source container with a
  truthy target value that is not a container.
\<close>

theorem mergeDeep_spec:
  "(wf_props sps \<and> plain_props sps \<and> mergeable tps sps \<longrightarrow>
      mergeDeep (JObj tps) sps = Inr (JObj (spec_mergeDeep tps sps)))
   \<and> (readProp (JObj tps) key = Inr tv \<longrightarrow>
        mergeDeep (JObj tps) ((key, JObj sub) # rest) =
          (case mergeDeep (if truthy tv then tv else JObj []) sub of
             Inl e \<Rightarrow> Inl e
           | Inr child \<Rightarrow> mergeDeep (JObj (AList.update key child tps)) rest))
   \<and> ((\<forall>sub. v \<noteq> JObj sub) \<and> (key = ''__proto__'' \<longrightarrow> key \<in> fst ` set tps) \<longrightarrow>
        mergeDeep (JObj tps) ((key, v) # rest) = mergeDeep (JObj (AList.update key v tps)) rest)
   \<and> ((key = ''__proto__'' \<longrightarrow> key \<in> fst ` set tps) \<longrightarrow>
        mergeDeep (JObj tps) [(key, JArr es ps)] = Inr (JObj (AList.update key (JArr es ps) tps)))
   \<and> (\<not> setsPrototype v \<and> ''__proto__'' \<notin> fst ` set tps \<longrightarrow>
        mergeDeep (JObj tps) ((''__proto__'', v) # rest) = mergeDeep (JObj tps) rest)
   \<and> (createNestedObject path (coerceValue s) = Inr src \<longrightarrow> wf_props src)"
proof -
  have a: "wf_props sps \<and> plain_props sps \<and> mergeable tps sps \<longrightarrow>
      mergeDeep (JObj tps) sps = Inr (JObj (spec_mergeDeep tps sps))"
    using mergeDeep_refines by blast
  have b: "readProp (JObj tps) key = Inr tv \<longrightarrow>
        mergeDeep (JObj tps) ((key, JObj sub) # rest) =
          (case mergeDeep (if truthy tv then tv else JObj []) sub of
             Inl e \<Rightarrow> Inl e
           | Inr child \<Rightarrow> mergeDeep (JObj (AList.update key child tps)) rest)"
    using mergeDeep_container by blast
  have c: "(\<forall>sub. v \<noteq> JObj sub) \<and> (key = ''__proto__'' \<longrightarrow> key \<in> fst ` set tps) \<longrightarrow>
      mergeDeep (JObj tps) ((key, v) # rest) = mergeDeep (JObj (AList.update key v tps)) rest"
    using mergeDeep_assign by blast
  have d: "(key = ''__proto__'' \<longrightarrow> key \<in> fst ` set tps) \<longrightarrow>
      mergeDeep (JObj tps) [(key, JArr es ps)] = Inr (JObj (AList.update key (JArr es ps) tps))"
    using mergeDeep_assign [of "JArr es ps" key tps "[]"] by simp
  have e: "\<not> setsPrototype v \<and> ''__proto__'' \<notin> fst ` set tps \<longrightarrow>
        mergeDeep (JObj tps) ((''__proto__'', v) # rest) = mergeDeep (JObj tps) rest"
    using mergeDeep_proto_ignored by blast
  have f: "createNestedObject path (coerceValue s) = Inr src \<longrightarrow> wf_props src"
    unfolding createNestedObject_def
    using wf_props_createNestedObject_loop [of "coerceValue s"] coerceValue_not_object by blast
  show ?thesis using a b c d e f by (intro conjI)
qed


theorem mergeDeep_spec_witness:
  "createNestedObject ''a.c'' (coerceValue ''2'') = Inr [(''a'', JObj [(''c'', JNum (Finite 2))])]
   \<and> wf_props [(''a'', JObj [(''c'', JNum (Finite 2))])]
   \<and> plain_props [(''a'', JObj [(''c'', JNum (Finite 2))])]
   \<and> mergeable [(''a'', JObj [(''b'', JNum (Finite 1))])] [(''a'', JObj [(''c'', JNum (Finite 2))])]
   \<and> mergeDeep (JObj [(''a'', JObj [(''b'', JNum (Finite 1))])])
        [(''a'', JObj [(''c'', JNum (Finite 2))])] =
      Inr (JObj [(''a'', JObj [(''b'', JNum (Finite 1)), (''c'', JNum (Finite 2))])])
   \<and> readProp (JObj [(''a'', JNum (Finite 0))]) ''a'' = Inr (JNum (Finite 0))
   \<and> mergeDeep (JObj [(''a'', JNum (Finite 0))]) [(''a'', JObj [(''c'', JNum (Finite 2))])] =
      Inr (JObj [(''a'', JObj [(''c'', JNum (Finite 2))])])
   \<and> mergeDeep (JObj [(''a'', JNum (Finite 0))]) [(''a'', JStr ''x'')] = Inr (JObj [(''a'', JStr ''x'')])
   \<and> mergeDeep (JObj []) [(''a'', JArr [JNull] [])] = Inr (JObj [(''a'', JArr [JNull] [])])
   \<and> mergeDeep (JObj [(''a'', JNull)]) [(''__proto__'', JStr ''x'')] = Inr (JObj [(''a'', JNull)])"
proof -
  let ?t = "[(''a'', JObj [(''b'', JNum (Finite 1))])]"
  let ?s = "[(''a'', JObj [(''c'', JNum (Finite 2))])]"
  let ?z = "[(''a'', JNum (Finite 0))]"
  have c: "createNestedObject ''a.c'' (coerceValue ''2'') = Inr ?s" by code_simp
  have w0: "wf_props ?s"
    by (rule mergeDeep_spec [THEN conjunct2, THEN conjunct2, THEN conjunct2, THEN conjunct2,
          THEN conjunct2, THEN mp]) (rule c)
  have p: "plain_props ?s" by code_simp
  have m: "mergeable ?t ?s" by code_simp
  have v: "spec_mergeDeep ?t ?s = [(''a'', JObj [(''b'', JNum (Finite 1)), (''c'', JNum (Finite 2))])]"
    by code_simp
  have "mergeDeep (JObj ?t) ?s = Inr (JObj (spec_mergeDeep ?t ?s))"
    by (rule mergeDeep_spec [THEN conjunct1, THEN mp]) (intro conjI w0 p m)
  then have r: "mergeDeep (JObj ?t) ?s =
      Inr (JObj [(''a'', JObj [(''b'', JNum (Finite 1)), (''c'', JNum (Finite 2))])])"
    by (simp only: v)
  have rd: "readProp (JObj ?z) ''a'' = Inr (JNum (Finite 0))" by code_simp
  have rhs: "(case mergeDeep (if truthy (JNum (Finite 0)) then JNum (Finite 0) else JObj [])
                 [(''c'', JNum (Finite 2))] of
               Inl e \<Rightarrow> Inl e
             | Inr child \<Rightarrow> mergeDeep (JObj (AList.update ''a'' child ?z)) []) =
      Inr (JObj [(''a'', JObj [(''c'', JNum (Finite 2))])])"
    by code_simp
  have "mergeDeep (JObj ?z) ((''a'', JObj [(''c'', JNum (Finite 2))]) # []) =
      (case mergeDeep (if truthy (JNum (Finite 0)) then JNum (Finite 0) else JObj [])
                 [(''c'', JNum (Finite 2))] of
               Inl e \<Rightarrow> Inl e
             | Inr child \<Rightarrow> mergeDeep (JObj (AList.update ''a'' child ?z)) [])"
    by (rule mergeDeep_spec [THEN conjunct2, THEN conjunct1, THEN mp]) (rule rd)
  then have f: "mergeDeep (JObj ?z) [(''a'', JObj [(''c'', JNum (Finite 2))])] =
      Inr (JObj [(''a'', JObj [(''c'', JNum (Finite 2))])])"
    by (simp only: rhs)
  have n: "(\<forall>sub. JStr ''x'' \<noteq> JObj sub) \<and> (''a'' = ''__proto__'' \<longrightarrow> ''a'' \<in> fst ` set ?z)"
    by simp
  have u: "mergeDeep (JObj (AList.update ''a'' (JStr ''x'') ?z)) [] = Inr (JObj [(''a'', JStr ''x'')])"
    by code_simp
  have "mergeDeep (JObj ?z) ((''a'', JStr ''x'') # []) =
      mergeDeep (JObj (AList.update ''a'' (JStr ''x'') ?z)) []"
    by (rule mergeDeep_spec [THEN conjunct2, THEN conjunct2, THEN conjunct1, THEN mp]) (rule n)
  then have a: "mergeDeep (JObj ?z) [(''a'', JStr ''x'')] = Inr (JObj [(''a'', JStr ''x'')])"
    by (simp only: u)
  have n2: "''a'' = ''__proto__'' \<longrightarrow> ''a'' \<in> fst ` set ([] :: (string \<times> jsval) list)" by simp
  have u2: "AList.update ''a'' (JArr [JNull] []) [] = [(''a'', JArr [JNull] [])]" by simp
  have "mergeDeep (JObj []) [(''a'', JArr [JNull] [])] =
      Inr (JObj (AList.update ''a'' (JArr [JNull] []) []))"
    by (rule mergeDeep_spec [THEN conjunct2, THEN conjunct2, THEN conjunct2, THEN conjunct1, THEN mp])
      (rule n2)
  then have g: "mergeDeep (JObj []) [(''a'', JArr [JNull] [])] = Inr (JObj [(''a'', JArr [JNull] [])])"
    by (simp only: u2)
  have n3: "\<not> setsPrototype (JStr ''x'') \<and> ''__proto__'' \<notin> fst ` set [(''a'', JNull)]" by simp
  have u3: "mergeDeep (JObj [(''a'', JNull)]) [] = Inr (JObj [(''a'', JNull)])" by simp
  have "mergeDeep (JObj [(''a'', JNull)]) ((''__proto__'', JStr ''x'') # []) =
      mergeDeep (JObj [(''a'', JNull)]) []"
    by (rule mergeDeep_spec [THEN conjunct2, THEN conjunct2, THEN conjunct2, THEN conjunct2,
          THEN conjunct1, THEN mp]) (rule n3)
  then have h: "mergeDeep (JObj [(''a'', JNull)]) [(''__proto__'', JStr ''x'')] =
      Inr (JObj [(''a'', JNull)])"
    by (simp only: u3)
  show ?thesis using c w0 p m r rd f a g h by (intro conjI)
qed

section \<open>Properties of the row materializer\<close>








lemma plainKey_not_inherited: "plainKey key \<Longrightarrow> key \<notin> set objectPrototype"
  by (simp add: plainKey_def)

lemma plainKey_not_proto: "plainKey key \<Longrightarrow> key \<noteq> ''__proto__''"
  using proto_inherited by (auto simp: plainKey_def)

lemma plainKey_not_provided: "plainKey key \<Longrightarrow> \<not> provided t key"
  by (cases t) (simp_all add: plainKey_def)



lemma scalar_cases:
  "scalar v \<Longrightarrow> (\<forall>sps. v \<noteq> JObj sps) \<and> (\<forall>es ps. v \<noteq> JArr es ps) \<and> shape_of v = Leaf"
  by (cases v) (simp_all add: scalar_def)



lemma coerceValue_scalar: "scalar (coerceValue s)"
  by (simp add: coerceValue_def scalar_def)




text \<open>
  On plain names the embedding follows the program: no read and no write stops at the
  prototype chain.
\<close>

lemma readProp_covered: "plainKey key \<Longrightarrow> readProp t key \<noteq> Inl PrototypeChain"
  using plainKey_not_provided [of key t]
  by (cases t) (auto split: option.splits simp del: provided.simps)

lemma writeProp_covered: "plainKey key \<Longrightarrow> writeProp t key v \<noteq> Inl PrototypeChain"
  using plainKey_not_proto [of key]
  by (cases t) (auto simp: plainKey_def)

lemma mergeDeep_covered: "all_keys plainKey src \<Longrightarrow> mergeDeep t src \<noteq> Inl PrototypeChain"
proof (induction t src rule: mergeDeep.induct)
  case (1 target)
  then show ?case by simp
next
  case (2 target key sps rest)
  from "2.prems" have pk: "plainKey key" and psub: "all_keys plainKey sps"
    and prest: "all_keys plainKey rest" by simp_all
  show ?case
  proof
    assume bad: "mergeDeep target ((key, JObj sps) # rest) = Inl PrototypeChain"
    obtain tv where tv: "readProp target key = Inr tv"
      using bad readProp_covered [OF pk, of target]
      by (cases "readProp target key") (auto split: sum.splits)
    let ?w = "if \<not> truthy tv then writeProp target key (JObj []) else Inr target"
    obtain target1 where t1: "?w = Inr target1"
      using bad tv writeProp_covered [OF pk, of target "JObj []"]
      by (cases "truthy tv"; cases "writeProp target key (JObj [])") (auto split: sum.splits)
    obtain tv1 where tv1: "readProp target1 key = Inr tv1"
      using bad tv t1 readProp_covered [OF pk, of target1]
      by (cases "readProp target1 key") (auto split: sum.splits)
    have sub: "mergeDeep tv1 sps \<noteq> Inl PrototypeChain"
      using "2.IH"(1) [OF tv t1 tv1 psub] .
    obtain child where child: "mergeDeep tv1 sps = Inr child"
      using bad tv t1 tv1 sub by (cases "mergeDeep tv1 sps") (auto split: sum.splits)
    obtain target2 where t2: "writeProp target1 key child = Inr target2"
      using bad tv t1 tv1 child writeProp_covered [OF pk, of target1 child]
      by (cases "writeProp target1 key child") (auto split: sum.splits)
    have "mergeDeep target2 rest \<noteq> Inl PrototypeChain"
      using "2.IH"(2) [OF tv t1 tv1 child t2 prest] .
    with bad tv t1 tv1 child t2 show False by (simp split: sum.splits)
  qed
qed (use writeProp_covered in \<open>auto split: sum.splits\<close>)


lemma createNestedObject_loop_covered:
  "scalar v \<Longrightarrow> list_all (\<lambda>k. plainKey (trim k)) ks \<Longrightarrow>
   \<exists>src. createNestedObject_loop ks v = Inr src \<and> all_keys plainKey src"
proof (induction ks)
  case Nil
  then show ?case by simp
next
  case (Cons k ks)
  from Cons.prems(2) have pk: "plainKey (trim k)" and pks: "list_all (\<lambda>k. plainKey (trim k)) ks"
    by simp_all
  show ?case
  proof (cases ks)
    case Nil
    show ?thesis
      unfolding Nil createNestedObject_loop_last
      using pk plainKey_not_proto [OF pk] scalar_cases [OF Cons.prems(1)]
      by (simp add: all_keys_cons split: jsval.splits)
  next
    case (Cons k' ks')
    from Cons.IH [OF Cons.prems(1) pks] obtain sub where
      sub: "createNestedObject_loop ks v = Inr sub" "all_keys plainKey sub" by blast
    have "createNestedObject_loop (k # ks) v = Inr [(trim k, JObj sub)]"
      unfolding Cons createNestedObject_loop_cons
      using sub(1) plainKey_not_inherited [OF pk] by (simp add: Cons)
    then show ?thesis using pk sub(2) by simp
  qed
qed

lemma row_loop_covered: "plain_headers hs \<Longrightarrow> row_loop rcd hs vs \<noteq> Inl PrototypeChain"
proof (induction hs arbitrary: rcd vs)
  case Nil
  then show ?case by simp
next
  case (Cons h hs)
  from Cons.prems have ph: "list_all (\<lambda>k. plainKey (trim k)) (split dot (trim h))"
    and phs: "plain_headers hs" by (simp_all add: plain_headers_def)
  show ?case
  proof (cases vs)
    case Nil
    then show ?thesis by simp
  next
    case (Cons v vs')
    from createNestedObject_loop_covered [OF coerceValue_scalar ph, of "trim v"]
    obtain src where src: "createNestedObject (trim h) (coerceValue (trim v)) = Inr src"
      and keys: "all_keys plainKey src" by (auto simp: createNestedObject_def)
    show ?thesis
      using src mergeDeep_covered [OF keys, of rcd] Cons.IH [OF phs]
      by (cases "mergeDeep rcd src") (auto simp: Cons)
  qed
qed

lemma materialize_covered: "plain_headers hs \<Longrightarrow> materialize hs vs \<noteq> Inl PrototypeChain"
  unfolding materialize_def by (rule row_loop_covered)















lemma onLine_covered:
  "headers st = Some hs \<Longrightarrow> plain_headers hs \<Longrightarrow> lineNumber st \<noteq> 0 \<Longrightarrow>
   onLine batchSize line st \<noteq> None"
  using materialize_covered [of hs "parseLine line"]
  by (auto simp: onLine_def Let_def split: sum.splits)


text \<open>
  Where the embedding stops. A path through \<^verbatim>\<open>__proto__\<close> or \<^verbatim>\<open>constructor\<close> makes the
  builder descend into \<^verbatim>\<open>Object.prototype\<close> or into the function \<^verbatim>\<open>Object\<close>; a
  container merged under the key \<^verbatim>\<open>constructor\<close>, or under \<^verbatim>\<open>toFixed\<close> into a number, is
  merged into a function of the runtime. A scalar assigned under \<^verbatim>\<open>constructor\<close> is an
  ordinary own property.
\<close>

lemma prototype_chain_stops:
  "createNestedObject ''__proto__.polluted'' (JStr ''P'') = Inl PrototypeChain
   \<and> createNestedObject ''constructor.x'' (JStr ''P'') = Inl PrototypeChain
   \<and> materialize [''__proto__.polluted''] [''P''] = Inl PrototypeChain
   \<and> mergeDeep (JObj []) [(''constructor'', JObj [(''a'', JNum (Finite 1))])] =
       Inl PrototypeChain
   \<and> mergeDeep (JObj [(''a'', JNum (Finite 5))]) [(''a'', JObj [(''toFixed'', JObj [])])] =
       Inl PrototypeChain
   \<and> mergeDeep (JObj []) [(''constructor'', JNum (Finite 1))] =
       Inr (JObj [(''constructor'', JNum (Finite 1))])
   \<and> run 5 [Chunk [''__proto__.polluted'', ''P'']] initial = None"
  by code_simp





section \<open>Rows with a wrong number of fields\<close>





















section \<open>Executions of the streaming pipeline\<close>

lemma sequential_initial: "1 \<le> batchSize \<Longrightarrow> sequential batchSize initial"
  by (simp add: sequential_def initial_def)

lemma sequential_onLine:
  assumes "sequential batchSize st" and "\<not> paused st" and "\<not> closed st"
    and "onLine batchSize line st = Some st'"
  shows "sequential batchSize st'"
  using assms
  by (auto simp: sequential_def onLine_def onBatch_def Let_def
      split: option.splits sum.splits if_splits)

lemma sequential_onClose:
  assumes "sequential batchSize st" and "closed st"
  shows "sequential batchSize (onClose st)"
  using assms
  by (auto simp: sequential_def onClose_def onBatch_def resolve_def)

lemma sequential_rl_close:
  assumes "sequential batchSize st"
  shows "sequential batchSize (rl_close st)"
proof (cases "closed st")
  case True
  then show ?thesis using assms by (simp add: rl_close_def)
next
  case False
  have "sequential batchSize (st\<lparr>paused := True, closed := True\<rparr>)"
    using assms by (simp add: sequential_def)
  from sequential_onClose [OF this] show ?thesis using False by (simp add: rl_close_def)
qed

lemma sequential_reject: "sequential batchSize st \<Longrightarrow> sequential batchSize (reject e st)"
  by (simp add: sequential_def reject_def)

lemma sequential_resolve: "sequential batchSize st \<Longrightarrow> sequential batchSize (resolve n st)"
  by (simp add: sequential_def resolve_def)

lemma pending_single: "length ps \<le> 1 \<Longrightarrow> k \<in> set ps \<Longrightarrow> removeAll k ps = []"
  by (cases ps) auto

lemma sequential_step:
  assumes inv: "sequential batchSize st" and pos: "1 \<le> batchSize"
    and one: "case ev of Chunk ls \<Rightarrow> length ls \<le> 1 | _ \<Rightarrow> True"
    and step: "step batchSize ev st = Some st'"
  shows "sequential batchSize st'"
proof (cases ev)
  case (Chunk ls)
  with step have flowing: "\<not> paused st" "\<not> closed st"
    and st': "onLines batchSize ls st = Some st'"
    by (auto split: if_splits)
  from one Chunk have "ls = [] \<or> (\<exists>l. ls = [l])" by (cases ls) auto
  then show ?thesis
    using st' inv sequential_onLine [OF inv flowing] by (auto split: option.splits)
next
  case (Settle k r)
  with step have k: "k \<in> set (pending st)" by (auto split: if_splits)
  let ?st1 = "st\<lparr>pending := removeAll k (pending st)\<rparr>"
  have busy: "paused st \<or> closed st" using inv k by (auto simp: sequential_def)
  have p1: "closed st \<or> pending ?st1 = []"
    using inv k by (auto simp: sequential_def pending_single)
  have len1: "length (pending st) \<le> 1 \<Longrightarrow> length (removeAll k (pending st)) \<le> 1"
    using length_removeAll_less_eq [of k "pending st"] by linarith
  have inv1: "sequential batchSize ?st1"
    using inv busy len1 by (auto simp: sequential_def)
  show ?thesis
  proof (cases "fst (calls st ! k)")
    case LineListener
    with step Settle k have st': "st' = afterBatch r ?st1" by (simp add: Let_def)
    show ?thesis
    proof (cases r)
      case None
      then show ?thesis using st' inv1 p1 pos by (auto simp: afterBatch_def sequential_def)
    next
      case (Some e)
      then show ?thesis
        using st' sequential_reject [OF sequential_rl_close [OF inv1]]
        by (simp add: afterBatch_def)
    qed
  next
    case CloseListener
    with step Settle k have st': "st' = afterFinalBatch r ?st1" by (simp add: Let_def)
    then show ?thesis
      using sequential_reject [OF inv1] sequential_resolve [OF inv1]
      by (cases r) (simp_all add: afterFinalBatch_def)
  qed
next
  case (EndOfInput final)
  with step have flowing: "\<not> paused st" "\<not> closed st"
    and st': "(case final of None \<Rightarrow> Some (rl_close st)
               | Some line \<Rightarrow> map_option rl_close (onLine batchSize line st)) = Some st'"
    by (auto split: if_splits option.splits)
  show ?thesis
  proof (cases final)
    case None
    with st' show ?thesis using sequential_rl_close [OF inv] by auto
  next
    case (Some line)
    with st' obtain st1 where a: "onLine batchSize line st = Some st1" and b: "st' = rl_close st1"
      by auto
    from sequential_rl_close [OF sequential_onLine [OF inv flowing a]] b show ?thesis by simp
  qed
qed

lemma sequential_run:
  "sequential batchSize st \<Longrightarrow> 1 \<le> batchSize \<Longrightarrow> line_at_a_time evs \<Longrightarrow>
   run batchSize evs st = Some st' \<Longrightarrow> sequential batchSize st'"
proof (induction evs arbitrary: st)
  case Nil
  then show ?case by simp
next
  case (Cons ev evs)
  from Cons.prems(4) obtain st1 where s: "step batchSize ev st = Some st1"
    and r: "run batchSize evs st1 = Some st'"
    by (auto split: option.splits)
  from Cons.prems(3) have one: "case ev of Chunk ls \<Rightarrow> length ls \<le> 1 | _ \<Rightarrow> True"
    and rest: "line_at_a_time evs"
    by (simp_all add: line_at_a_time_def)
  from sequential_step [OF Cons.prems(1,2) one s] have "sequential batchSize st1" .
  from Cons.IH [OF this Cons.prems(2) rest r] show ?case .
qed

text \<open>
  When no chunk holds more than one line, the pause is effective: no consumer call gets
  more records than the batch size, and while a consumer call is pending no chunk is
  delivered.
\<close>

lemma line_at_a_time_bounded:
  assumes "1 \<le> batchSize" and "line_at_a_time evs" and "run batchSize evs initial = Some st"
  shows "list_all (\<lambda>c. length (snd c) \<le> batchSize) (calls st)"
    and "pending st \<noteq> [] \<Longrightarrow> step batchSize (Chunk ls) st = None"
proof -
  have inv: "sequential batchSize st"
    using sequential_run [OF sequential_initial [OF assms(1)] assms] .
  then show "list_all (\<lambda>c. length (snd c) \<le> batchSize) (calls st)"
    by (simp add: sequential_def)
  show "pending st \<noteq> [] \<Longrightarrow> step batchSize (Chunk ls) st = None"
    using inv by (auto simp: sequential_def)
qed

text \<open>
  A last line without a line terminator is followed by the close at once: when it fills
  the batch, the consumer is called twice with the same batch.
\<close>

lemma unterminated_last_line:
  "map_option (\<lambda>st. (sizes st, pending st))
     (run 2 [Chunk [''a''], Chunk [''1''], EndOfInput (Some ''2'')] initial) =
   Some ([2, 2], [0, 1])"
  by code_simp

text \<open>
  In every execution, whatever the chunks, no consumer call is made with an empty batch.
\<close>

lemma nonempty_onLine:
  "list_all (\<lambda>c. snd c \<noteq> []) (calls st) \<Longrightarrow> onLine batchSize line st = Some st' \<Longrightarrow>
   list_all (\<lambda>c. snd c \<noteq> []) (calls st')"
  by (auto simp: onLine_def onBatch_def Let_def split: option.splits sum.splits if_splits)

lemma nonempty_chunk:
  "list_all (\<lambda>c. snd c \<noteq> []) (calls st) \<Longrightarrow> onLines batchSize ls st = Some st' \<Longrightarrow>
   list_all (\<lambda>c. snd c \<noteq> []) (calls st')"
proof (induction ls arbitrary: st)
  case Nil
  then show ?case by simp
next
  case (Cons l ls)
  from Cons.prems(2) obtain st1 where a: "onLine batchSize l st = Some st1"
    and b: "onLines batchSize ls st1 = Some st'" by (auto split: option.splits)
  from Cons.IH [OF nonempty_onLine [OF Cons.prems(1) a] b] show ?case .
qed

lemma nonempty_rl_close:
  "list_all (\<lambda>c. snd c \<noteq> []) (calls st) \<Longrightarrow> list_all (\<lambda>c. snd c \<noteq> []) (calls (rl_close st))"
  by (auto simp: rl_close_def onClose_def onBatch_def resolve_def)

lemma nonempty_step:
  assumes "list_all (\<lambda>c. snd c \<noteq> []) (calls st)" and "step batchSize ev st = Some st'"
  shows "list_all (\<lambda>c. snd c \<noteq> []) (calls st')"
proof (cases ev)
  case (Chunk ls)
  with assms(2) have "onLines batchSize ls st = Some st'"
    by (auto split: if_splits)
  then show ?thesis using nonempty_chunk [OF assms(1)] by simp
next
  case (Settle k r)
  let ?st1 = "st\<lparr>pending := removeAll k (pending st)\<rparr>"
  have inv1: "list_all (\<lambda>c. snd c \<noteq> []) (calls ?st1)" using assms(1) by simp
  from assms(2) Settle have "st' = afterBatch r ?st1 \<or> st' = afterFinalBatch r ?st1"
    by (auto simp: Let_def split: if_splits origin.splits)
  then show ?thesis
    using inv1 nonempty_rl_close [OF inv1]
    by (cases r) (auto simp: afterBatch_def afterFinalBatch_def reject_def resolve_def)
next
  case (EndOfInput final)
  with assms(2) have st': "(case final of None \<Rightarrow> Some (rl_close st)
      | Some line \<Rightarrow> map_option rl_close (onLine batchSize line st)) = Some st'"
    by (auto split: if_splits option.splits)
  show ?thesis
  proof (cases final)
    case None
    with st' show ?thesis using nonempty_rl_close [OF assms(1)] by auto
  next
    case (Some line)
    with st' obtain st1 where a: "onLine batchSize line st = Some st1" and b: "st' = rl_close st1"
      by auto
    from nonempty_rl_close [OF nonempty_onLine [OF assms(1) a]] b show ?thesis by simp
  qed
qed

lemma nonempty_run:
  "list_all (\<lambda>c. snd c \<noteq> []) (calls st) \<Longrightarrow> run batchSize evs st = Some st' \<Longrightarrow>
   list_all (\<lambda>c. snd c \<noteq> []) (calls st')"
proof (induction evs arbitrary: st)
  case Nil
  then show ?case by simp
next
  case (Cons ev evs)
  from Cons.prems(2) obtain st1 where s: "step batchSize ev st = Some st1"
    and r: "run batchSize evs st1 = Some st'"
    by (auto split: option.splits)
  from Cons.IH [OF nonempty_step [OF Cons.prems(1) s] r] show ?case .
qed

lemma no_empty_batch:
  "run batchSize evs initial = Some st \<Longrightarrow> list_all (\<lambda>c. snd c \<noteq> []) (calls st)"
  using nonempty_run [of initial batchSize evs st] by (simp add: initial_def)

text \<open>
  At the end of the input a non-empty batch is handed to the consumer in one call, and
  the total is reported when that call is fulfilled.
\<close>

lemma final_flush:
  assumes "\<not> paused st" and "\<not> closed st" and "batch st \<noteq> []" and "outcome st = None"
  shows "map_option (\<lambda>s. (calls s, pending s, outcome s)) (step batchSize (EndOfInput None) st) =
      Some (calls st @ [(CloseListener, batch st)], pending st @ [length (calls st)], None)"
    and "map_option outcome
      (run batchSize [EndOfInput None, Settle (length (calls st)) None] st) =
      Some (Some (Inr (totalRecords st)))"
  using assms
  by (simp_all add: rl_close_def onClose_def onBatch_def Let_def afterFinalBatch_def resolve_def
      nth_append)

text \<open>
  When every line arrives in a chunk of its own and the next chunk arrives after the
  consumer call has settled, five rows with \<open>batchSize = 2\<close> give three consumer calls
  of 2, 2 and 1 records and the total 5.
\<close>

lemma five_rows_line_by_line:
  "map_option (\<lambda>st. (sizes st, outcome st, pending st))
     (run 2 [Chunk [''a''], Chunk [''1''], Chunk [''2''], Settle 0 None, Chunk [''3''],
             Chunk [''4''], Settle 1 None, Chunk [''5''], EndOfInput None, Settle 2 None] initial) =
   Some ([2, 2, 1], Some (Inr 5), [])"
  by code_simp

text \<open>
  Claim C1 fails on the code. A file of a header and three rows, read as one chunk with
  \<open>batchSize = 2\<close>: the listener of the second row calls the consumer with two records
  and pauses the interface; the third row of the chunk is delivered all the same, while
  that call is pending, and the listener calls the consumer again, with three records.
\<close>

theorem pause_does_not_stop_chunk:
  "map_option (\<lambda>st. (sizes st, pending st, paused st))
     (run 2 [Chunk [''a'', ''1'', ''2'', ''3'']] initial) = Some ([2, 3], [0, 1], True)"
  by code_simp

text \<open>
  Claim C2 fails on the code. A header and one row with \<open>batchSize = 1\<close>, each line in a
  chunk of its own, and a consumer whose first call throws: the listener closes the
  interface before it rejects, the \<^verbatim>\<open>'close'\<close> listener finds the failed batch still in
  \<^verbatim>\<open>batch\<close> and hands it to the consumer a second time. The promise is rejected with the
  first failure.
\<close>

theorem failed_batch_resubmitted:
  "map_option (\<lambda>st. (calls st, pending st, outcome st))
     (run 1 [Chunk [''a''], Chunk [''1''], Settle 0 (Some (ConsumerError 0))] initial) =
   Some ([(LineListener, [JObj [(''a'', JNum (Finite 1))]]),
          (CloseListener, [JObj [(''a'', JNum (Finite 1))]])],
         [1], Some (Inl (ConsumerError 0)))"
  by code_simp

text \<open>
  With several consumer calls pending, a failure can be lost: the first call is
  fulfilled and empties \<^verbatim>\<open>batch\<close>, the second call fails, and \<^verbatim>\<open>rl.close()\<close> runs the
  \<^verbatim>\<open>'close'\<close> listener, which resolves the promise before the line listener rejects it.
\<close>

lemma failure_swallowed:
  "map_option (\<lambda>st. (sizes st, outcome st))
     (run 1 [Chunk [''a'', ''1'', ''2''], Settle 0 None, Settle 1 (Some (ConsumerError 0))] initial) =
   Some ([1, 2], Some (Inr 2))"
  by code_simp

text \<open>
  Claim C3 fails on the code. A blank line, the header \<^verbatim>\<open>a\<close> and the row \<^verbatim>\<open>1\<close>, each in a
  chunk of its own: the blank line advances \<^verbatim>\<open>lineNumber\<close>, so the header line is not line
  1; it and the row are handled as data while \<^verbatim>\<open>headers\<close> is \<^verbatim>\<open>null\<close>, each raises a
  \<^verbatim>\<open>TypeError\<close> that is caught and logged, and the pipeline resolves with 0 records. The
  whole-file loader reads the same file as one record.
\<close>

theorem blank_line_before_header:
  "map_option (\<lambda>st. (headers st, totalRecords st, calls st, failed st, outcome st))
     (run 10 [Chunk [[]], Chunk [''a''], Chunk [''1''], EndOfInput None] initial) =
   Some (None, 0, [], [2, 3], Some (Inr 0))
   \<and> parse (newline # ''a'' @ newline # ''1'' @ [newline]) =
       ([], Inr [JObj [(''a'', JNum (Finite 1))]])"
  by code_simp

text \<open>
  Claim C4 fails on the code. A header and five rows read as one chunk with
  \<open>batchSize = 2\<close>: the consumer is called four times, with 2, 3, 4 and 5 records of the
  same array, and the pipeline resolves with 5 while three of the calls are pending.
\<close>

theorem five_rows_one_chunk:
  "map_option (\<lambda>st. (sizes st, pending st, outcome st))
     (run 2 [Chunk [''a'', ''1'', ''2'', ''3'', ''4'', ''5''], Settle 0 None, EndOfInput None] initial) =
   Some ([2, 3, 4, 5], [1, 2, 3], Some (Inr 5))"
  by code_simp

end
